theory Spec2Isabelle
  imports Main "HOL-Library.Sublist"
begin

section \<open>Python strings\<close>

text \<open>
  A Python \<open>str\<close> is a sequence of Unicode code points; it is modelled as a list of
  naturals.  \<open>py\<close> turns an ASCII literal of the theory into such a string.
\<close>

type_synonym pystr = "nat list"

definition py :: "string \<Rightarrow> pystr" where
  "py cs = map of_char cs"

text \<open>\<open>str.isspace\<close> on one code point, the set that \<open>str.strip()\<close> removes.\<close>

definition isspace :: "nat \<Rightarrow> bool" where
  "isspace c = ((9 \<le> c \<and> c \<le> 13) \<or> (28 \<le> c \<and> c \<le> 32) \<or> c = 133 \<or> c = 160
      \<or> c = 5760 \<or> (8192 \<le> c \<and> c \<le> 8202) \<or> c = 8232 \<or> c = 8233
      \<or> c = 8239 \<or> c = 8287 \<or> c = 12288)"

definition strip :: "pystr \<Rightarrow> pystr" where
  "strip s = rev (dropWhile isspace (rev (dropWhile isspace s)))"

text \<open>
  \<open>str.lower()\<close> on the ASCII letters.  Python also maps letters beyond ASCII; none of
  those maps to a letter of the word the source compares with.
\<close>

definition lower_char :: "nat \<Rightarrow> nat" where
  "lower_char c = (if 65 \<le> c \<and> c \<le> 90 then c + 32 else c)"

definition lower :: "pystr \<Rightarrow> pystr" where
  "lower s = map lower_char s"

text \<open>\<open>sub in s\<close> on strings.\<close>

fun py_in :: "pystr \<Rightarrow> pystr \<Rightarrow> bool" where
  "py_in sub [] = (sub = [])"
| "py_in sub (c # cs) = (prefix sub (c # cs) \<or> py_in sub cs)"

text \<open>\<open>str(n)\<close> for a non-negative integer: its decimal digits.\<close>

fun str_nat :: "nat \<Rightarrow> pystr" where
  "str_nat n = (if n < 10 then [48 + n] else str_nat (n div 10) @ [48 + n mod 10])"

declare str_nat.simps [simp del]

text \<open>\<open>x or y\<close> on an optional string: \<open>None\<close> and the empty string are falsy.\<close>

definition truthy :: "pystr option \<Rightarrow> bool" where
  "truthy x = (case x of None \<Rightarrow> False | Some s \<Rightarrow> s \<noteq> [])"

definition or_default :: "pystr option \<Rightarrow> pystr \<Rightarrow> pystr" where
  "or_default x d = (case x of None \<Rightarrow> d | Some s \<Rightarrow> if s \<noteq> [] then s else d)"

definition or_else :: "pystr option \<Rightarrow> pystr option \<Rightarrow> pystr option" where
  "or_else x y = (if truthy x then x else y)"

section \<open>The parse tree of BeautifulSoup\<close>

text \<open>
  The source works on the tree that \<open>BeautifulSoup(text, 'html.parser')\<close> builds.  A node
  is a string (\<open>NavigableString\<close>), a string of another kind that \<open>get_text\<close> leaves out
  (\<open>Comment\<close> and the like), or a tag with its name, its attribute dictionary and its
  children.  The \<open>BeautifulSoup\<close> object itself is a tag, named \<open>[document]\<close>.
\<close>

datatype node =
    Text pystr
  | Comment pystr
  | Element pystr "(pystr \<times> pystr) list" "node list"

fun name_of :: "node \<Rightarrow> pystr option" where
  "name_of (Element nm _ _) = Some nm"
| "name_of _ = None"

fun children :: "node \<Rightarrow> node list" where
  "children (Element _ _ kids) = kids"
| "children _ = []"

text \<open>\<open>tag.get(key)\<close>.\<close>

fun get_attr :: "node \<Rightarrow> pystr \<Rightarrow> pystr option" where
  "get_attr (Element _ attrs _) key = map_of attrs key"
| "get_attr _ key = None"

text \<open>\<open>tag.descendants\<close>: every node below the tag, in document order.\<close>

fun descendants :: "node \<Rightarrow> node list" where
  "descendants (Element _ _ kids) = concat (map (\<lambda>k. k # descendants k) kids)"
| "descendants _ = []"

text \<open>\<open>tag.find_all(...)\<close> and \<open>tag.find(...)\<close> with the test on a tag given as a predicate;
  strings never match a search by tag name.\<close>

definition is_tag :: "node \<Rightarrow> bool" where
  "is_tag n = (name_of n \<noteq> None)"

definition find_all :: "(node \<Rightarrow> bool) \<Rightarrow> node \<Rightarrow> node list" where
  "find_all p n = filter (\<lambda>d. is_tag d \<and> p d) (descendants n)"

definition soup_find :: "(node \<Rightarrow> bool) \<Rightarrow> node \<Rightarrow> node option" where
  "soup_find p n = (case find_all p n of [] \<Rightarrow> None | d # _ \<Rightarrow> Some d)"

definition named :: "pystr list \<Rightarrow> node \<Rightarrow> bool" where
  "named nms n = (case name_of n of None \<Rightarrow> False | Some nm \<Rightarrow> nm \<in> set nms)"

text \<open>
  \<open>class\<close> and \<open>rel\<close> are multi-valued attributes: the library splits their value at
  whitespace, and a search for a string matches one of the values or all of them joined
  by single spaces.
\<close>

fun tokens_acc :: "pystr \<Rightarrow> pystr \<Rightarrow> pystr list" where
  "tokens_acc cur [] = (if cur = [] then [] else [cur])"
| "tokens_acc cur (c # cs) =
     (if isspace c then (if cur = [] then tokens_acc [] cs else cur # tokens_acc [] cs)
      else tokens_acc (cur @ [c]) cs)"

definition tokens :: "pystr \<Rightarrow> pystr list" where
  "tokens s = tokens_acc [] s"

fun join_sp :: "pystr list \<Rightarrow> pystr" where
  "join_sp [] = []"
| "join_sp [t] = t"
| "join_sp (t # ts) = t @ [32] @ join_sp ts"

definition multi_matches :: "(pystr \<Rightarrow> bool) \<Rightarrow> pystr \<Rightarrow> node \<Rightarrow> bool" where
  "multi_matches f key n =
     (case get_attr n key of None \<Rightarrow> False
      | Some v \<Rightarrow> list_ex f (tokens v) \<or> f (join_sp (tokens v)))"

definition has_class :: "pystr \<Rightarrow> node \<Rightarrow> bool" where
  "has_class c n = multi_matches (\<lambda>v. v = c) (py ''class'') n"

text \<open>
  \<open>tag.get_text()\<close> concatenates the strings below the tag; with \<open>strip=True\<close> each of
  them is stripped first and the empty ones are left out.
\<close>

fun text_of :: "node \<Rightarrow> pystr list" where
  "text_of (Text t) = [t]"
| "text_of _ = []"

definition all_strings :: "node \<Rightarrow> pystr list" where
  "all_strings n = concat (map text_of (descendants n))"

definition get_text :: "node \<Rightarrow> pystr" where
  "get_text n = concat (all_strings n)"

definition get_text_strip :: "node \<Rightarrow> pystr" where
  "get_text_strip n = concat (filter (\<lambda>t. t \<noteq> []) (map strip (all_strings n)))"

text \<open>
  \<open>for tag in root.find_all(...): tag.decompose()\<close>: every tag below the root that
  matches is taken out of the tree with all it contains.
\<close>

fun decompose_all :: "(node \<Rightarrow> bool) \<Rightarrow> node \<Rightarrow> node" where
  "decompose_all p (Element nm attrs kids) =
     Element nm attrs (map (decompose_all p) (filter (\<lambda>k. \<not> (is_tag k \<and> p k)) kids))"
| "decompose_all p n = n"

section \<open>The environment of a run\<close>

text \<open>
  The flowables of ReportLab that the source constructs, as the constructor calls it
  makes; lengths are in millimetres, line widths in points.
\<close>

datatype style =
    NewspaperTitle | NewspaperDate | ArticleTitle | ArticleMeta
  | ColumnBody | ArticleHeading | ArticleSubheading | Quote

datatype flowable =
    Paragraph pystr style
  | Spacer nat
  | HRFlowable nat

text \<open>
  What the source takes from outside:
  \<^item> the answer of the network to a GET request (\<open>None\<close> when \<open>requests.get\<close> or
    \<open>raise_for_status\<close> raises);
  \<^item> the parser and the serialiser of the HTML library;
  \<^item> the date of the run as \<open>strftime\<close> prints it;
  \<^item> whether the installed library gives string nodes a \<open>decompose\<close> method (the source
    asks with \<open>hasattr\<close>; where the library defines the method for tags only, strings
    have none);
  \<^item> how many nested calls of \<open>fetch_substack_article\<close> fit on the interpreter's stack
    where \<open>main\<close> calls \<open>fetch_article\<close>: the call after them raises \<open>RecursionError\<close>;
  \<^item> whether the \<open>Paragraph\<close> of ReportLab accepts a text (it raises \<open>ValueError\<close> on a
    text that its markup parser rejects), and whether \<open>doc.build\<close> completes on a story.
\<close>

record env =
  http_get :: "pystr \<Rightarrow> pystr option"
  parse :: "pystr \<Rightarrow> node"
  render :: "node \<Rightarrow> pystr"
  today :: pystr
  str_decompose :: bool
  stack_depth :: nat
  para_ok :: "pystr \<Rightarrow> bool"
  build_ok :: "flowable list \<Rightarrow> bool"

section \<open>pdf_generator.py\<close>

definition headings :: "pystr list" where
  "headings = [py ''h1'', py ''h2'', py ''h3'']"

text \<open>Truth value of a node (\<open>while current:\<close>): a tag is always true, a string when it
  is not empty.\<close>

fun node_truthy :: "node \<Rightarrow> bool" where
  "node_truthy (Element _ _ _) = True"
| "node_truthy (Text t) = (t \<noteq> [])"
| "node_truthy (Comment t) = (t \<noteq> [])"

fun has_decompose :: "bool \<Rightarrow> node \<Rightarrow> bool" where
  "has_decompose sd (Element _ _ _) = True"
| "has_decompose sd _ = sd"

text \<open>The \<open>while current:\<close> loop of lines 130 to 137, on the siblings after the heading.\<close>

fun delete_until_heading :: "bool \<Rightarrow> node list \<Rightarrow> node list" where
  "delete_until_heading sd [] = []"
| "delete_until_heading sd (current # rest) =
     (if \<not> node_truthy current then current # rest
      else if named headings current then current # rest
      else if has_decompose sd current then delete_until_heading sd rest
      else current # delete_until_heading sd rest)"

definition is_references :: "node \<Rightarrow> bool" where
  "is_references h = (named headings h \<and> lower (get_text_strip h) = py ''references'')"

text \<open>
  The \<open>for h_tag in soup.find_all(['h1', 'h2', 'h3'])\<close> loop of lines 127 to 140: the first
  heading in document order with the text sought is taken out with the siblings after
  it, and the loop ends.  \<open>None\<close> is the loop running to its end with no match.
\<close>

fun remove_references_node :: "bool \<Rightarrow> node \<Rightarrow> node option"
  and remove_references_list :: "bool \<Rightarrow> node list \<Rightarrow> node list option" where
  "remove_references_node sd (Element nm attrs kids) =
     map_option (Element nm attrs) (remove_references_list sd kids)"
| "remove_references_node sd (Text t) = None"
| "remove_references_node sd (Comment t) = None"
| "remove_references_list sd [] = None"
| "remove_references_list sd (n # ns) =
     (if is_references n then Some (delete_until_heading sd ns)
      else case remove_references_node sd n of
             Some n' \<Rightarrow> Some (n' # ns)
           | None \<Rightarrow> map_option ((#) n) (remove_references_list sd ns))"

definition remove_references :: "bool \<Rightarrow> node \<Rightarrow> node" where
  "remove_references sd soup =
     (case remove_references_node sd soup of None \<Rightarrow> soup | Some soup' \<Rightarrow> soup')"

text \<open>\<open>process_element\<close>, lines 143 to 180; \<open>result\<close> is the list the source appends to.
  The bullet of line 171 is the code point U+2022, the number 8226.  A \<open>Paragraph\<close> of
  the model is the constructor call; whether ReportLab accepts its text is asked in
  \<open>generate_newspaper_pdf\<close>.\<close>

definition emit :: "node \<Rightarrow> style \<Rightarrow> flowable list" where
  "emit elem st = (let text = get_text_strip elem in
     if text \<noteq> [] then [Paragraph text st] else [])"

definition list_item :: "pystr \<Rightarrow> node \<Rightarrow> flowable list \<Rightarrow> flowable list" where
  "list_item nm li result = (let text = get_text_strip li in
     if text \<noteq> [] then
       (let bullet = (if nm = py ''ul'' then [8226] else str_nat (length result + 1) @ py ''.'')
        in result @ [Paragraph (bullet @ py '' '' @ text) ColumnBody])
     else result)"

fun process_element :: "node \<Rightarrow> flowable list" where
  "process_element (Element nm attrs kids) =
     (if nm = py ''p'' then emit (Element nm attrs kids) ColumnBody
      else if nm \<in> set [py ''h1'', py ''h2''] then emit (Element nm attrs kids) ArticleHeading
      else if nm = py ''h3'' then emit (Element nm attrs kids) ArticleSubheading
      else if nm = py ''blockquote'' then emit (Element nm attrs kids) Quote
      else if nm \<in> set [py ''ul'', py ''ol''] then
        fold (list_item nm) (filter (named [py ''li'']) kids) []
      else if nm = py ''div'' then
        fold (\<lambda>child result. result @ process_element child) kids []
      else [])"
| "process_element (Text t) = []"
| "process_element (Comment t) = []"

text \<open>\<open>html_to_flowables\<close>, lines 113 to 188, after the parser has run: the three removals,
  the choice of the node whose children are walked, and the walk.\<close>

definition preprocess :: "bool \<Rightarrow> node \<Rightarrow> node" where
  "preprocess sd soup0 =
     (let soup1 = decompose_all
            (named [py ''script'', py ''style'', py ''button'', py ''form'', py ''nav'']) soup0;
          soup2 = decompose_all
            (\<lambda>t. named [py ''div''] t \<and> has_class (py ''subscription-widget-wrap'') t) soup1
      in remove_references sd soup2)"

definition content_root :: "node \<Rightarrow> node" where
  "content_root soup = (case soup_find (named [py ''body'']) soup of Some b \<Rightarrow> b | None \<Rightarrow> soup)"

definition flowables_of_soup :: "bool \<Rightarrow> node \<Rightarrow> flowable list" where
  "flowables_of_soup sd soup0 =
     (let body = content_root (preprocess sd soup0)
      in fold (\<lambda>elem flowables. flowables @ process_element elem) (children body) [])"

definition html_to_flowables :: "env \<Rightarrow> pystr \<Rightarrow> flowable list" where
  "html_to_flowables e html_content = flowables_of_soup (str_decompose e) (parse e html_content)"

section \<open>article_fetcher.py\<close>

text \<open>
  The exceptions of a run: a failed request (\<open>requests.get\<close> or \<open>raise_for_status\<close>),
  the full stack of the interpreter, a text that \<open>Paragraph\<close> rejects, and a failure of
  \<open>doc.build\<close>.
\<close>

datatype error = RequestFailed | RecursionError | ValueError | BuildError

definition is_substack_url :: "pystr \<Rightarrow> bool" where
  "is_substack_url u = py_in (py ''substack.com'') u"

text \<open>Lines 27 to 30: the URL to fetch instead, for a reader view with a canonical link.\<close>

definition canonical_url :: "pystr \<Rightarrow> node \<Rightarrow> pystr option" where
  "canonical_url u soup =
     (if py_in (py ''/home/post/'') u then
        (case soup_find (\<lambda>t. named [py ''link''] t
                \<and> multi_matches (\<lambda>v. v = py ''canonical'') (py ''rel'') t) soup of
           None \<Rightarrow> None
         | Some canonical_link \<Rightarrow>
             (if truthy (get_attr canonical_link (py ''href''))
              then get_attr canonical_link (py ''href'') else None))
      else None)"

text \<open>Lines 35 to 43.\<close>

definition substack_title :: "node \<Rightarrow> pystr option" where
  "substack_title soup =
     (case soup_find (\<lambda>t. named [py ''h1''] t \<and> has_class (py ''post-title'') t) soup of
        Some title_tag \<Rightarrow> Some (get_text_strip title_tag)
      | None \<Rightarrow>
          (case soup_find (named [py ''title'']) soup of
             Some title_tag \<Rightarrow> Some (get_text_strip title_tag)
           | None \<Rightarrow> None))"

text \<open>Lines 47 to 59.\<close>

definition substack_publication :: "node \<Rightarrow> pystr option" where
  "substack_publication soup =
     (case soup_find (\<lambda>t. named [py ''h1''] t
             \<and> multi_matches (\<lambda>c. c \<noteq> [] \<and> py_in (py ''title'') c) (py ''class'') t) soup of
        None \<Rightarrow> None
      | Some pub_heading \<Rightarrow>
          (case soup_find (\<lambda>t. named [py ''a''] t \<and> get_attr t (py ''href'') = Some (py ''/''))
                  pub_heading of
             None \<Rightarrow> None
           | Some pub_link \<Rightarrow>
               (let publication = get_text_strip pub_link in
                if publication = [] then
                  (case soup_find (\<lambda>t. named [py ''img''] t \<and> get_attr t (py ''alt'') \<noteq> None)
                          pub_link of
                     None \<Rightarrow> Some publication
                   | Some img \<Rightarrow>
                       (if truthy (get_attr img (py ''alt'')) then get_attr img (py ''alt'')
                        else Some publication))
                else Some publication)))"

text \<open>Lines 46 and 62 to 67: the first profile link with a text.\<close>

definition substack_author :: "node \<Rightarrow> pystr option" where
  "substack_author soup =
     (case filter (\<lambda>text. text \<noteq> [])
             (map get_text_strip
               (find_all (\<lambda>t. named [py ''a''] t
                    \<and> (case get_attr t (py ''href'') of None \<Rightarrow> False
                        | Some h \<Rightarrow> h \<noteq> [] \<and> prefix (py ''https://substack.com/@'') h)) soup)) of
        [] \<Rightarrow> None
      | text # _ \<Rightarrow> Some text)"

text \<open>Lines 70 to 75.\<close>

definition format_author :: "pystr option \<Rightarrow> pystr option \<Rightarrow> pystr" where
  "format_author author publication =
     (if truthy author \<and> truthy publication \<and> author \<noteq> publication then
        py ''Written by '' @ the author @ py '' from '' @ the publication
      else if truthy author then py ''Written by '' @ the author
      else py ''Unknown Author'')"

text \<open>Lines 78 to 81, and 141 to 144.\<close>

definition extract_date :: "node \<Rightarrow> pystr option" where
  "extract_date soup =
     (case soup_find (named [py ''time'']) soup of
        None \<Rightarrow> None
      | Some time_tag \<Rightarrow>
          or_else (get_attr time_tag (py ''datetime'')) (Some (get_text_strip time_tag)))"

text \<open>Lines 84 to 100.\<close>

definition substack_content :: "env \<Rightarrow> node \<Rightarrow> pystr" where
  "substack_content e soup =
     (let content_div = soup_find (\<lambda>t. named [py ''div''] t \<and> has_class (py ''available-content'') t) soup;
          content_div = (if content_div = None
             then soup_find (\<lambda>t. named [py ''div''] t \<and> has_class (py ''body'') t) soup
             else content_div);
          content_div = (if content_div = None
             then soup_find (named [py ''article'']) soup else content_div)
      in case content_div of
           None \<Rightarrow> []
         | Some d \<Rightarrow> render e (decompose_all
             (named [py ''script'', py ''style'', py ''button'', py ''form'']) d))"

text \<open>The dictionary that both extractions return.\<close>

record article =
  title :: pystr
  author :: pystr
  date :: pystr
  content_html :: pystr
  url :: pystr

text \<open>Lines 34 to 108: what \<open>fetch_substack_article\<close> does with the page it keeps.\<close>

definition substack_extract :: "env \<Rightarrow> pystr \<Rightarrow> node \<Rightarrow> article" where
  "substack_extract e u soup =
     (let title = substack_title soup;
          author = format_author (substack_author soup) (substack_publication soup);
          date = extract_date soup;
          content_html = substack_content e soup
      in \<lparr> title = or_default title (py ''Untitled''),
           author = or_default (Some author) (py ''Unknown Author''),
           date = or_default date [],
           content_html = content_html,
           url = u \<rparr>)"

text \<open>
  \<open>fetch_substack_article\<close>, with the number of nested calls that still fit on the stack.
  Beside the article or the exception, the model returns the URLs that the call has
  requested, in order.  A call for which no room is left raises \<open>RecursionError\<close>; its
  own request is not counted.
\<close>

fun fetch_substack_article_from ::
  "env \<Rightarrow> nat \<Rightarrow> pystr \<Rightarrow> (error + article) \<times> pystr list" where
  "fetch_substack_article_from e depth u =
     (if depth = 0 then (Inl RecursionError, [])
      else case http_get e u of
        None \<Rightarrow> (Inl RequestFailed, [u])
      | Some text \<Rightarrow>
          (let soup = parse e text in
           case canonical_url u soup of
             Some canonical \<Rightarrow>
               (case fetch_substack_article_from e (depth - 1) canonical of
                  (res, requested) \<Rightarrow> (res, u # requested))
           | None \<Rightarrow> (Inr (substack_extract e u soup), [u])))"

declare fetch_substack_article_from.simps [simp del]

definition fetch_substack_article :: "env \<Rightarrow> pystr \<Rightarrow> (error + article) \<times> pystr list" where
  "fetch_substack_article e u = fetch_substack_article_from e (stack_depth e) u"

text \<open>Lines 124 to 132.\<close>

definition general_title :: "node \<Rightarrow> pystr option" where
  "general_title soup =
     (case soup_find (named [py ''h1'']) soup of
        Some h1 \<Rightarrow> Some (get_text_strip h1)
      | None \<Rightarrow>
          (case soup_find (named [py ''title'']) soup of
             Some title_tag \<Rightarrow> Some (get_text_strip title_tag)
           | None \<Rightarrow> None))"

text \<open>Lines 135 to 138.\<close>

definition general_author :: "node \<Rightarrow> pystr option" where
  "general_author soup =
     (case soup_find (\<lambda>t. named [py ''meta''] t \<and> get_attr t (py ''name'') = Some (py ''author''))
             soup of
        None \<Rightarrow> None
      | Some author_meta \<Rightarrow> get_attr author_meta (py ''content''))"

text \<open>Lines 148 to 158: the first selector that finds something.\<close>

fun first_found :: "(node \<Rightarrow> bool) list \<Rightarrow> node \<Rightarrow> node option" where
  "first_found [] soup = None"
| "first_found (selector # selectors) soup =
     (case soup_find selector soup of
        Some content_div \<Rightarrow> Some content_div
      | None \<Rightarrow> first_found selectors soup)"

definition selectors :: "(node \<Rightarrow> bool) list" where
  "selectors =
     [named [py ''article''],
      (\<lambda>t. named [py ''div''] t \<and> has_class (py ''article'') t),
      (\<lambda>t. named [py ''div''] t \<and> has_class (py ''content'') t),
      (\<lambda>t. named [py ''div''] t \<and> has_class (py ''post'') t),
      named [py ''main'']]"

text \<open>Lines 161 to 168: the first division with the longest text.\<close>

definition longest_div :: "node \<Rightarrow> node option" where
  "longest_div soup =
     snd (fold (\<lambda>d (max_text_len, content_div).
            (let text_len = length (get_text d) in
             if text_len > max_text_len then (text_len, Some d)
             else (max_text_len, content_div)))
          (find_all (named [py ''div'']) soup) (0, None))"

definition general_content :: "env \<Rightarrow> node \<Rightarrow> pystr" where
  "general_content e soup =
     (let content_div = first_found selectors soup;
          content_div = (if content_div = None then longest_div soup else content_div)
      in case content_div of
           None \<Rightarrow> []
         | Some d \<Rightarrow> render e (decompose_all
             (named [py ''script'', py ''style'', py ''nav'', py ''header'', py ''footer'',
                     py ''aside'']) d))"

definition general_extract :: "env \<Rightarrow> pystr \<Rightarrow> node \<Rightarrow> article" where
  "general_extract e u soup =
     (let title = general_title soup;
          author = general_author soup;
          date = extract_date soup;
          content_html = general_content e soup
      in \<lparr> title = or_default title (py ''Untitled''),
           author = or_default author (py ''Unknown Author''),
           date = or_default date [],
           content_html = content_html,
           url = u \<rparr>)"

definition fetch_general_article :: "env \<Rightarrow> pystr \<Rightarrow> (error + article) \<times> pystr list" where
  "fetch_general_article e u =
     (case http_get e u of
        None \<Rightarrow> (Inl RequestFailed, [u])
      | Some text \<Rightarrow> (Inr (general_extract e u (parse e text)), [u]))"

definition fetch_article :: "env \<Rightarrow> pystr \<Rightarrow> (error + article) \<times> pystr list" where
  "fetch_article e u =
     (if is_substack_url u then fetch_substack_article e u
      else fetch_general_article e u)"

section \<open>pdf_generator.py: the document\<close>

text \<open>
  The story of \<open>generate_newspaper_pdf\<close>, lines 262 to 290: the flowables constructed, in
  order.  The page geometry and the typesetting of ReportLab are not modelled.
\<close>

definition article_flowables :: "env \<Rightarrow> nat \<times> article \<Rightarrow> flowable list \<Rightarrow> flowable list" where
  "article_flowables e ia story =
     (let i = fst ia; a = snd ia;
          story = (if i > 0 then story @ [Spacer 5, HRFlowable 1, Spacer 3] else story);
          story = story @ [Paragraph (title a) ArticleTitle];
          meta_text = (if date a \<noteq> [] then author a @ [32, 8226, 32] @ date a else author a);
          story = story @ [Paragraph meta_text ArticleMeta]
      in story @ html_to_flowables e (content_html a))"

definition story_of :: "env \<Rightarrow> article list \<Rightarrow> flowable list" where
  "story_of e articles =
     fold (article_flowables e) (enumerate 0 articles)
       [Paragraph (py ''THE WEEKLY'') NewspaperTitle, Paragraph (today e) NewspaperDate,
        HRFlowable 2, Spacer 3]"

text \<open>
  \<open>generate_newspaper_pdf\<close>.  The first \<open>Paragraph\<close> whose text ReportLab rejects raises
  \<open>ValueError\<close>, also inside \<open>html_to_flowables\<close>; nothing else happens before
  \<open>doc.build\<close>, so the call raises it exactly when the story holds such a paragraph.
  Otherwise \<open>doc.build\<close> writes the document of the story, or fails.
\<close>

definition accepted :: "env \<Rightarrow> flowable \<Rightarrow> bool" where
  "accepted e f = (case f of Paragraph t st \<Rightarrow> para_ok e t | Spacer h \<Rightarrow> True | HRFlowable w \<Rightarrow> True)"

definition generate_newspaper_pdf :: "env \<Rightarrow> article list \<Rightarrow> error + flowable list" where
  "generate_newspaper_pdf e articles =
     (let story = story_of e articles in
      if \<not> list_all (accepted e) story then Inl ValueError
      else if build_ok e story then Inr story
      else Inl BuildError)"

section \<open>make_newspaper.py\<close>

text \<open>
  The loop of lines 47 to 56 over the URLs: an exception of \<open>fetch_article\<close>, whichever
  it is, is caught and the loop goes on.
\<close>

fun fetch_articles :: "env \<Rightarrow> pystr list \<Rightarrow> article list \<Rightarrow> article list" where
  "fetch_articles e [] articles = articles"
| "fetch_articles e (u # urls) articles =
     (case fetch_article e u of
        (Inl err, requested) \<Rightarrow> fetch_articles e urls articles
      | (Inr a, requested) \<Rightarrow> fetch_articles e urls (articles @ [a]))"

text \<open>
  \<open>main\<close> from line 43 on, with the URLs that \<open>load_urls\<close> returned: \<open>sys.exit(1)\<close>, or
  an exception of \<open>generate_newspaper_pdf\<close>, which is called outside the \<open>try\<close>, or the
  story of the document that is built and saved.
\<close>

datatype outcome = SystemExit nat | Raised error | Saved "flowable list"

definition main :: "env \<Rightarrow> pystr list \<Rightarrow> outcome" where
  "main e urls =
     (let articles = fetch_articles e urls [] in
      if articles = [] then SystemExit 1
      else case generate_newspaper_pdf e articles of
             Inl err \<Rightarrow> Raised err
           | Inr story \<Rightarrow> Saved story)"

section \<open>Notions used to state the properties\<close>

text \<open>
  A page at which \<open>fetch_substack_article\<close> stops: the request fails, or the page is kept
  (no canonical URL is followed from it) and the article is extracted from it.
\<close>

definition final_page :: "env \<Rightarrow> pystr \<Rightarrow> (error + article) \<Rightarrow> bool" where
  "final_page e u res =
     (case http_get e u of
        None \<Rightarrow> res = Inl RequestFailed
      | Some page \<Rightarrow> canonical_url u (parse e page) = None
          \<and> res = Inr (substack_extract e u (parse e page)))"

text \<open>A flowable that is a paragraph whose text is not empty, stripped or not.\<close>

definition has_text :: "flowable \<Rightarrow> bool" where
  "has_text f = (case f of Paragraph t st \<Rightarrow> t \<noteq> [] \<and> strip t \<noteq> [] | _ \<Rightarrow> False)"

text \<open>The articles of the URLs whose fetch succeeds, in the order of the URLs.\<close>

definition successes :: "env \<Rightarrow> pystr list \<Rightarrow> article list" where
  "successes e urls =
     concat (map (\<lambda>u. case fst (fetch_article e u) of Inr a \<Rightarrow> [a] | Inl err \<Rightarrow> []) urls)"

section \<open>Example inputs\<close>

definition document :: "node list \<Rightarrow> node" where
  "document kids = Element (py ''[document]'') [] kids"

definition tag :: "string \<Rightarrow> node list \<Rightarrow> node" where
  "tag nm kids = Element (py nm) [] kids"

definition tx :: "string \<Rightarrow> node" where
  "tx cs = Text (py cs)"

text \<open>Two reader-view URLs and the URL of a post; a page whose head names a canonical URL.\<close>

definition reader_1 :: pystr where
  "reader_1 = py ''https://substack.com/home/post/p-1''"

definition reader_2 :: pystr where
  "reader_2 = py ''https://substack.com/home/post/p-2''"

definition post_url :: pystr where
  "post_url = py ''https://news.substack.com/p/story''"

definition canonical_page :: "pystr \<Rightarrow> node" where
  "canonical_page target =
     document [Element (py ''link'') [(py ''rel'', py ''canonical''), (py ''href'', target)] []]"

text \<open>A network where the first reader view names the second as canonical, and the
  second names the post; and one where the reader view names itself.  The stack has
  room for 985 nested calls, about what the interpreter's default limit of 1000 frames
  leaves.\<close>

definition chain_env :: env where
  "chain_env =
     \<lparr> http_get = (\<lambda>u. if u = reader_1 then Some (py ''1'')
                     else if u = reader_2 then Some (py ''2'')
                     else if u = post_url then Some (py ''3'') else None),
       parse = (\<lambda>t. if t = py ''1'' then canonical_page reader_2
                  else if t = py ''2'' then canonical_page post_url
                  else document []),
       render = (\<lambda>n. []), today = [], str_decompose = False, stack_depth = 985,
       para_ok = (\<lambda>t. True), build_ok = (\<lambda>story. True) \<rparr>"

definition cycle_env :: env where
  "cycle_env =
     \<lparr> http_get = (\<lambda>u. if u = reader_1 then Some (py ''1'') else None),
       parse = (\<lambda>t. canonical_page reader_1),
       render = (\<lambda>n. []), today = [], str_decompose = False, stack_depth = 985,
       para_ok = (\<lambda>t. True), build_ok = (\<lambda>story. True) \<rparr>"

text \<open>A page with a masthead heading that links to the site root, and a profile link;
  a link without a text has no string below it.\<close>

definition tx_nodes :: "string \<Rightarrow> node list" where
  "tx_nodes cs = (if cs = [] then [] else [tx cs])"

definition byline_page :: "string \<Rightarrow> string \<Rightarrow> node" where
  "byline_page writer publication =
     document
       [Element (py ''h1'') [(py ''class'', py ''pub-title'')]
          [Element (py ''a'') [(py ''href'', py ''/'')] (tx_nodes publication)],
        Element (py ''a'') [(py ''href'', py ''https://substack.com/@writer'')]
          (tx_nodes writer)]"

text \<open>Markup of the classifier's examples, each with the tree the parser builds for it
  (a string of spaces only comes out as one space).\<close>

definition references_markup :: pystr where
  "references_markup = py ''<h2>References</h2><p>cite 1</p><h2>Next</h2><p>kept</p>''"

definition references_soup :: node where
  "references_soup =
     document [tag ''h2'' [tx ''References''], tag ''p'' [tx ''cite 1''],
               tag ''h2'' [tx ''Next''], tag ''p'' [tx ''kept'']]"

definition quote_markup :: pystr where
  "quote_markup = py ''<blockquote>Intro<h3>References</h3>cite 1</blockquote>''"

definition quote_soup :: node where
  "quote_soup =
     document [tag ''blockquote'' [tx ''Intro'', tag ''h3'' [tx ''References''], tx ''cite 1'']]"

definition empty_markup :: pystr where
  "empty_markup = py ''<p></p><p>   </p><p>Real text</p>''"

definition empty_soup :: node where
  "empty_soup = document [tag ''p'' [], tag ''p'' [tx '' ''], tag ''p'' [tx ''Real text'']]"

definition div_markup :: pystr where
  "div_markup = py ''<div><p>A</p><div><p>B</p></div></div>''"

definition div_soup :: node where
  "div_soup = document [tag ''div'' [tag ''p'' [tx ''A''], tag ''div'' [tag ''p'' [tx ''B'']]]]"

definition lists_markup :: pystr where
  "lists_markup =
     py ''<ol><li>one</li><li> </li><li>two</li></ol><ol><li>three</li></ol><ul><li>four<ul><li>five</li></ul></li></ul>''"

definition lists_soup :: node where
  "lists_soup =
     document
       [tag ''ol'' [tag ''li'' [tx ''one''], tag ''li'' [tx '' ''], tag ''li'' [tx ''two'']],
        tag ''ol'' [tag ''li'' [tx ''three'']],
        tag ''ul'' [tag ''li'' [tx ''four'', tag ''ul'' [tag ''li'' [tx ''five'']]]]]"

definition markup_env :: "bool \<Rightarrow> env" where
  "markup_env sd =
     \<lparr> http_get = (\<lambda>u. None),
       parse = (\<lambda>t. if t = references_markup then references_soup
                  else if t = quote_markup then quote_soup
                  else if t = empty_markup then empty_soup
                  else if t = div_markup then div_soup
                  else if t = lists_markup then lists_soup
                  else document []),
       render = (\<lambda>n. []), today = [], str_decompose = sd, stack_depth = 985,
       para_ok = (\<lambda>t. True), build_ok = (\<lambda>story. True) \<rparr>"

text \<open>A node that is, or has below it, a heading with the text sought.\<close>

definition contains_references :: "node \<Rightarrow> bool" where
  "contains_references n = list_ex is_references (n # descendants n)"

text \<open>The tag names that \<open>process_element\<close> knows.\<close>

definition recognised :: "pystr list" where
  "recognised = [py ''p'', py ''h1'', py ''h2'', py ''h3'', py ''blockquote'', py ''ul'',
                 py ''ol'', py ''div'']"

text \<open>Three URLs of other sites; the request of the second one fails.  The pages of the
  other two, the division each extraction keeps, and its markup.\<close>

definition url_a :: pystr where
  "url_a = py ''https://a.example/one''"

definition url_b :: pystr where
  "url_b = py ''https://b.example/two''"

definition url_c :: pystr where
  "url_c = py ''https://c.example/three''"

definition page_a :: pystr where
  "page_a = py ''<h1>One</h1><div><p>First body</p></div>''"

definition page_c :: pystr where
  "page_c = py ''<h1>Three</h1><time datetime=2026-01-05></time><div><p>Third body</p></div>''"

definition div_a :: node where
  "div_a = tag ''div'' [tag ''p'' [tx ''First body'']]"

definition div_c :: node where
  "div_c = tag ''div'' [tag ''p'' [tx ''Third body'']]"

definition content_a :: pystr where
  "content_a = py ''<div><p>First body</p></div>''"

definition content_c :: pystr where
  "content_c = py ''<div><p>Third body</p></div>''"

definition batch_env :: env where
  "batch_env =
     \<lparr> http_get = (\<lambda>u. if u = url_a then Some page_a
                     else if u = url_c then Some page_c else None),
       parse = (\<lambda>t. if t = page_a then document [tag ''h1'' [tx ''One''], div_a]
                  else if t = page_c then
                    document [tag ''h1'' [tx ''Three''],
                              Element (py ''time'') [(py ''datetime'', py ''2026-01-05'')] [],
                              div_c]
                  else if t = content_a then document [div_a]
                  else if t = content_c then document [div_c]
                  else document []),
       render = (\<lambda>n. if n = div_a then content_a else if n = div_c then content_c else []),
       today = py ''Tuesday, November 03, 2026'', str_decompose = True, stack_depth = 985,
       para_ok = (\<lambda>t. True), build_ok = (\<lambda>story. True) \<rparr>"

definition article_a :: article where
  "article_a = \<lparr> title = py ''One'', author = py ''Unknown Author'', date = [],
                 content_html = content_a, url = url_a \<rparr>"

definition article_c :: article where
  "article_c = \<lparr> title = py ''Three'', author = py ''Unknown Author'',
                 date = py ''2026-01-05'', content_html = content_c, url = url_c \<rparr>"

text \<open>The same batch where the heading of the first page reads \<open>Bold <b> move\<close> (the
  page has no division), a text that the markup parser of \<open>Paragraph\<close> rejects, the tag
  in it being left open.\<close>

definition page_bold :: pystr where
  "page_bold = py ''<h1>Bold &lt;b&gt; move</h1>''"

definition bold_env :: env where
  "bold_env =
     \<lparr> http_get = (\<lambda>u. if u = url_a then Some page_bold
                     else if u = url_c then Some page_c else None),
       parse = (\<lambda>t. if t = page_bold then document [tag ''h1'' [tx ''Bold <b> move'']]
                  else if t = page_c then
                    document [tag ''h1'' [tx ''Three''],
                              Element (py ''time'') [(py ''datetime'', py ''2026-01-05'')] [],
                              div_c]
                  else if t = content_c then document [div_c]
                  else document []),
       render = (\<lambda>n. if n = div_c then content_c else []),
       today = py ''Tuesday, November 03, 2026'', str_decompose = True, stack_depth = 985,
       para_ok = (\<lambda>t. t \<noteq> py ''Bold <b> move''), build_ok = (\<lambda>story. True) \<rparr>"

definition article_bold :: article where
  "article_bold = \<lparr> title = py ''Bold <b> move'', author = py ''Unknown Author'', date = [],
                    content_html = [], url = url_a \<rparr>"

section \<open>Evaluation of the definitions\<close>

lemmas ev = py_def isspace_def strip_def lower_def lower_char_def named_def is_tag_def
  find_all_def soup_find_def tokens_def multi_matches_def has_class_def all_strings_def
  get_text_def get_text_strip_def headings_def is_references_def remove_references_def
  emit_def list_item_def preprocess_def content_root_def flowables_of_soup_def
  html_to_flowables_def Let_def document_def tag_def tx_def tx_nodes_def truthy_def
  or_default_def or_else_def

lemmas ev_fetch = canonical_url_def substack_title_def substack_publication_def
  substack_author_def format_author_def extract_date_def substack_content_def
  substack_extract_def general_title_def general_author_def selectors_def longest_div_def
  general_content_def general_extract_def fetch_general_article_def fetch_article_def
  is_substack_url_def

lemmas ev_urls = reader_1_def reader_2_def post_url_def canonical_page_def

lemmas ev_batch = url_a_def url_b_def url_c_def page_a_def page_c_def div_a_def div_c_def
  content_a_def content_c_def batch_env_def article_a_def article_c_def page_bold_def
  bold_env_def article_bold_def

section \<open>Strings\<close>

lemma py_in_sublist: "py_in sub s = sublist sub s"
  by (induction s) (simp_all add: sublist_Cons_right)

lemma py_in_iff: "py_in sub s \<longleftrightarrow> (\<exists>p q. s = p @ sub @ q)"
  by (simp add: py_in_sublist sublist_def)

lemma or_default_nonempty: "d \<noteq> [] \<Longrightarrow> or_default x d \<noteq> []"
  by (simp add: or_default_def split: option.splits)

lemma py_nonempty: "cs \<noteq> [] \<Longrightarrow> py cs \<noteq> []"
  by (simp add: py_def)

section \<open>The redirect of a reader view\<close>

lemma chain_1:
  "http_get chain_env reader_1 = Some (py ''1'')
   \<and> canonical_url reader_1 (parse chain_env (py ''1'')) = Some reader_2"
  by (simp add: chain_env_def ev_urls ev ev_fetch)

lemma chain_2:
  "http_get chain_env reader_2 = Some (py ''2'')
   \<and> canonical_url reader_2 (parse chain_env (py ''2'')) = Some post_url"
  by (simp add: chain_env_def ev_urls ev ev_fetch)

lemma chain_3:
  "http_get chain_env post_url = Some (py ''3'')"
  "parse chain_env (py ''3'') = document []"
  "canonical_url post_url (document []) = None"
  by (simp_all add: chain_env_def ev_urls ev ev_fetch)

lemma chain_final:
  "final_page chain_env post_url (Inr (substack_extract chain_env post_url (document [])))"
  by (simp add: final_page_def chain_3)

lemma chain_depth: "stack_depth chain_env = 985" "stack_depth cycle_env = 985"
  by (simp_all add: chain_env_def cycle_env_def)

lemma cycle_step:
  "http_get cycle_env reader_1 = Some (py ''1'')
   \<and> canonical_url reader_1 (parse cycle_env (py ''1'')) = Some reader_1"
  by (simp add: cycle_env_def ev_urls ev ev_fetch)

lemma empty_page_article:
  "substack_extract e u (document []) =
     \<lparr> title = py ''Untitled'', author = py ''Unknown Author'', date = [],
       content_html = [], url = u \<rparr>"
  by (simp add: ev ev_fetch)

lemma fetch_substack_article_from_redirect:
  assumes "0 < depth" and "http_get e u = Some page"
    and "canonical_url u (parse e page) = Some c"
  shows "fetch_substack_article_from e depth u =
     (case fetch_substack_article_from e (depth - 1) c of
        (res, requested) \<Rightarrow> (res, u # requested))"
  using assms by (subst fetch_substack_article_from.simps) (simp add: Let_def)

lemma fetch_substack_article_from_final:
  assumes "0 < depth" and "final_page e u res"
  shows "fetch_substack_article_from e depth u = (res, [u])"
  using assms
  by (subst fetch_substack_article_from.simps)
     (auto simp add: final_page_def Let_def split: option.splits)

text \<open>What a call gives: no more requests than calls fit; and either the stack was
  filled, by that many requests, or the requests start at the URL of the call and end
  at a page where it stopped, with the result of that page.\<close>

lemma fetch_substack_article_from_result:
  "fetch_substack_article_from e depth u = (res, requested) \<Longrightarrow>
   length requested \<le> depth
   \<and> ((res = Inl RecursionError \<and> length requested = depth)
      \<or> (requested \<noteq> [] \<and> hd requested = u \<and> final_page e (last requested) res))"
proof (induction depth arbitrary: u res requested)
  case 0
  then show ?case by (simp add: fetch_substack_article_from.simps)
next
  case (Suc depth)
  show ?case
  proof (cases "http_get e u")
    case None
    with Suc.prems have "res = Inl RequestFailed" "requested = [u]"
      by (simp_all add: fetch_substack_article_from.simps)
    with None show ?thesis by (simp add: final_page_def)
  next
    case (Some page)
    show ?thesis
    proof (cases "canonical_url u (parse e page)")
      case None
      with Some Suc.prems
      have "res = Inr (substack_extract e u (parse e page))" "requested = [u]"
        by (simp_all add: fetch_substack_article_from.simps Let_def)
      with None Some show ?thesis by (simp add: final_page_def)
    next
      case (Some c)
      obtain res' requested' where r:
        "fetch_substack_article_from e depth c = (res', requested')"
        by (cases "fetch_substack_article_from e depth c") auto
      with Suc.prems \<open>http_get e u = Some page\<close> Some
      have eq: "res = res'" "requested = u # requested'"
        by (simp_all add: fetch_substack_article_from_redirect [of "Suc depth" e u page c])
      from Suc.IH [OF r] eq show ?thesis by auto
    qed
  qed
qed

lemma fetch_substack_article_from_cycle:
  assumes "http_get e u = Some page" and "canonical_url u (parse e page) = Some u"
  shows "fetch_substack_article_from e depth u = (Inl RecursionError, replicate depth u)"
proof (induction depth)
  case 0
  show ?case by (simp add: fetch_substack_article_from.simps)
next
  case (Suc depth)
  with assms show ?case
    by (simp add: fetch_substack_article_from_redirect [of "Suc depth" e u page u])
qed

text \<open>
  C1, as stated, fails: from the first reader view the source follows two canonical
  links, one after the other; it requests three URLs and returns the article of the
  third.
\<close>

theorem reader_view_two_hops:
  "fetch_substack_article chain_env reader_1 =
     (Inr \<lparr> title = py ''Untitled'', author = py ''Unknown Author'', date = [],
            content_html = [], url = post_url \<rparr>,
      [reader_1, reader_2, post_url])"
proof -
  from chain_final have 3: "fetch_substack_article_from chain_env 983 post_url
      = (Inr (substack_extract chain_env post_url (document [])), [post_url])"
    by (intro fetch_substack_article_from_final) simp_all
  have 2: "fetch_substack_article_from chain_env 984 reader_2
      = (Inr (substack_extract chain_env post_url (document [])), [reader_2, post_url])"
    using chain_2 3
    by (simp add: fetch_substack_article_from_redirect [of 984 chain_env reader_2 "py ''2'' " post_url])
  have 1: "fetch_substack_article_from chain_env 985 reader_1
      = (Inr (substack_extract chain_env post_url (document [])),
         [reader_1, reader_2, post_url])"
    using chain_1 2
    by (simp add: fetch_substack_article_from_redirect [of 985 chain_env reader_1 "py ''1'' " reader_2])
  then show ?thesis
    by (simp add: fetch_substack_article_def chain_depth empty_page_article)
qed

text \<open>
  C1, amended: from a reader-view URL whose page has a canonical link with a non-empty
  target, the extraction starts again at the canonical URL, and again at every such page
  it reaches; there is no limit of one hop, only the stack of the interpreter bounds the
  chain.  When the canonical URL is a page where the extraction stops (its request
  fails, or it is not a reader view with a canonical link) and two nested calls fit on
  the stack, exactly one hop is made: two requests, and the result is that of the
  canonical page.  A call never makes more requests than nested calls fit on the stack,
  and it ends with the result of a page where the extraction stops, after requests that
  start at its URL, or with \<open>RecursionError\<close>; where a reader view names itself as
  canonical it ends with \<open>RecursionError\<close> after that many requests of the same URL.
\<close>

theorem reader_view_redirect:
  "(0 < depth \<and> http_get e u = Some page \<and> canonical_url u (parse e page) = Some c \<longrightarrow>
      fetch_substack_article_from e depth u =
        (case fetch_substack_article_from e (depth - 1) c of
           (res, requested) \<Rightarrow> (res, u # requested)))
   \<and> (2 \<le> stack_depth e \<and> http_get e u = Some page
        \<and> canonical_url u (parse e page) = Some c \<and> final_page e c res \<longrightarrow>
      fetch_substack_article e u = (res, [u, c]))
   \<and> length (snd (fetch_substack_article e u)) \<le> stack_depth e
   \<and> (fetch_substack_article e u = (res, requested) \<longrightarrow>
        res = Inl RecursionError
        \<or> (requested \<noteq> [] \<and> hd requested = u \<and> final_page e (last requested) res))
   \<and> (http_get e u = Some page \<and> canonical_url u (parse e page) = Some u \<longrightarrow>
      fetch_substack_article e u = (Inl RecursionError, replicate (stack_depth e) u))"
proof (intro conjI impI)
  assume "0 < depth \<and> http_get e u = Some page \<and> canonical_url u (parse e page) = Some c"
  then show "fetch_substack_article_from e depth u =
      (case fetch_substack_article_from e (depth - 1) c of
         (res, requested) \<Rightarrow> (res, u # requested))"
    by (simp add: fetch_substack_article_from_redirect)
next
  assume h: "2 \<le> stack_depth e \<and> http_get e u = Some page
      \<and> canonical_url u (parse e page) = Some c \<and> final_page e c res"
  then have "fetch_substack_article_from e (stack_depth e - 1) c = (res, [c])"
    by (intro fetch_substack_article_from_final) simp_all
  with h show "fetch_substack_article e u = (res, [u, c])"
    by (simp add: fetch_substack_article_def
        fetch_substack_article_from_redirect [of "stack_depth e" e u page c])
next
  obtain res' requested' where
    "fetch_substack_article_from e (stack_depth e) u = (res', requested')"
    by (cases "fetch_substack_article_from e (stack_depth e) u") auto
  from fetch_substack_article_from_result [OF this] this
  show "length (snd (fetch_substack_article e u)) \<le> stack_depth e"
    by (simp add: fetch_substack_article_def)
next
  assume "fetch_substack_article e u = (res, requested)"
  then have "fetch_substack_article_from e (stack_depth e) u = (res, requested)"
    by (simp add: fetch_substack_article_def)
  from fetch_substack_article_from_result [OF this]
  show "res = Inl RecursionError
      \<or> (requested \<noteq> [] \<and> hd requested = u \<and> final_page e (last requested) res)"
    by blast
next
  assume "http_get e u = Some page \<and> canonical_url u (parse e page) = Some u"
  then show "fetch_substack_article e u = (Inl RecursionError, replicate (stack_depth e) u)"
    by (simp add: fetch_substack_article_def fetch_substack_article_from_cycle [of e u page])
qed

text \<open>The parts of the statement on the chain from its second reader view, and on the
  reader view that names itself.\<close>

theorem reader_view_redirect_witness:
  "(0::nat) < 985 \<and> http_get chain_env reader_2 = Some (py ''2'')
   \<and> canonical_url reader_2 (parse chain_env (py ''2'')) = Some post_url
   \<and> fetch_substack_article_from chain_env 985 reader_2 =
       (case fetch_substack_article_from chain_env (985 - 1) post_url of
          (res, requested) \<Rightarrow> (res, reader_2 # requested))
   \<and> 2 \<le> stack_depth chain_env
   \<and> final_page chain_env post_url (Inr (substack_extract chain_env post_url (document [])))
   \<and> fetch_substack_article chain_env reader_2
       = (Inr (substack_extract chain_env post_url (document [])), [reader_2, post_url])
   \<and> length [reader_2, post_url] \<le> stack_depth chain_env
   \<and> final_page chain_env (last [reader_2, post_url])
       (Inr (substack_extract chain_env post_url (document [])))
   \<and> http_get cycle_env reader_1 = Some (py ''1'')
   \<and> canonical_url reader_1 (parse cycle_env (py ''1'')) = Some reader_1
   \<and> fetch_substack_article cycle_env reader_1
       = (Inl RecursionError, replicate (stack_depth cycle_env) reader_1)"
proof -
  note f = chain_final
  note t = reader_view_redirect [of 985 chain_env reader_2 "py ''2'' " post_url
      "Inr (substack_extract chain_env post_url (document []))" "[reader_2, post_url]"]
  from t chain_2 have 1: "fetch_substack_article_from chain_env 985 reader_2 =
       (case fetch_substack_article_from chain_env (985 - 1) post_url of
          (res, requested) \<Rightarrow> (res, reader_2 # requested))"
    by simp
  from t chain_2 f chain_depth have 2: "fetch_substack_article chain_env reader_2
       = (Inr (substack_extract chain_env post_url (document [])), [reader_2, post_url])"
    by simp
  from t 2 have 3: "length [reader_2, post_url] \<le> stack_depth chain_env"
    by simp
  from reader_view_redirect [of 985 cycle_env reader_1 "py ''1'' " reader_1
      "Inl RecursionError" "[]"] cycle_step
  have 4: "fetch_substack_article cycle_env reader_1
       = (Inl RecursionError, replicate (stack_depth cycle_env) reader_1)"
    by simp
  from 1 2 3 4 f chain_2 cycle_step chain_depth show ?thesis by simp
qed

section \<open>The dispatch on the URL\<close>

text \<open>
  C10: \<open>fetch_article\<close> takes the Substack path exactly when \<open>substack.com\<close> occurs
  somewhere in the URL string, host or not, and the generic path otherwise; the URL
  \<open>https://example.com/about-substack.com\<close> takes the Substack path.
\<close>

theorem dispatch_on_substring:
  "is_substack_url u = (\<exists>p q. u = p @ py ''substack.com'' @ q)
   \<and> fetch_article e u =
       (if (\<exists>p q. u = p @ py ''substack.com'' @ q) then fetch_substack_article e u
        else fetch_general_article e u)
   \<and> fetch_article e (py ''https://example.com/about-substack.com'')
       = fetch_substack_article e (py ''https://example.com/about-substack.com'')"
proof -
  have a: "is_substack_url u = (\<exists>p q. u = p @ py ''substack.com'' @ q)" for u
    by (simp add: is_substack_url_def py_in_iff)
  have b: "is_substack_url (py ''https://example.com/about-substack.com'')"
    by (simp add: is_substack_url_def py_def)
  show ?thesis
    using a [of u] b by (simp add: fetch_article_def)
qed

section \<open>The author line\<close>

lemma substack_author_nonempty: "substack_author soup = Some a \<Longrightarrow> a \<noteq> []"
proof -
  assume h: "substack_author soup = Some a"
  define xs where "xs = filter (\<lambda>t. t \<noteq> [])
             (map get_text_strip
               (find_all (\<lambda>t. named [py ''a''] t
                    \<and> (case get_attr t (py ''href'') of None \<Rightarrow> False
                        | Some h \<Rightarrow> h \<noteq> [] \<and> prefix (py ''https://substack.com/@'') h)) soup))"
  from h have "xs \<noteq> [] \<and> a = hd xs"
    unfolding substack_author_def xs_def [symmetric] by (cases xs) auto
  then have "a \<in> set xs" by simp
  then show ?thesis unfolding xs_def by simp
qed

lemma format_author_nonempty: "format_author x y \<noteq> []"
  by (simp add: format_author_def py_def)

lemma author_of_substack_extract:
  "author (substack_extract e u soup)
     = format_author (substack_author soup) (substack_publication soup)"
  by (simp add: substack_extract_def Let_def or_default_def format_author_nonempty)

text \<open>
  C2: the author line of the Substack extraction.  With an author \<open>a\<close> and a non-empty
  publication \<open>p\<close> other than \<open>a\<close> it is \<open>Written by a from p\<close>; with an author and no
  publication, an empty one or one equal to the author, it is \<open>Written by a\<close>; with no
  author it is \<open>Unknown Author\<close>.  For the author Jane and the publication Jane it is
  \<open>Written by Jane\<close>.
\<close>

theorem author_display_string:
  "(substack_author soup = Some a \<and> substack_publication soup = Some p \<and> p \<noteq> [] \<and> a \<noteq> p \<longrightarrow>
      author (substack_extract e u soup) = py ''Written by '' @ a @ py '' from '' @ p)
   \<and> (substack_author soup = Some a
        \<and> (\<not> truthy (substack_publication soup) \<or> substack_publication soup = Some a) \<longrightarrow>
      author (substack_extract e u soup) = py ''Written by '' @ a)
   \<and> (substack_author soup = None \<longrightarrow>
      author (substack_extract e u soup) = py ''Unknown Author'')
   \<and> format_author (Some (py ''Jane'')) (Some (py ''Jane'')) = py ''Written by Jane''"
proof (intro conjI impI)
  assume "substack_author soup = Some a \<and> substack_publication soup = Some p \<and> p \<noteq> [] \<and> a \<noteq> p"
  moreover from this have "a \<noteq> []" by (auto dest: substack_author_nonempty)
  ultimately show "author (substack_extract e u soup) = py ''Written by '' @ a @ py '' from '' @ p"
    by (simp add: author_of_substack_extract format_author_def truthy_def)
next
  assume h: "substack_author soup = Some a
     \<and> (\<not> truthy (substack_publication soup) \<or> substack_publication soup = Some a)"
  then have "a \<noteq> []" by (auto dest: substack_author_nonempty)
  with h show "author (substack_extract e u soup) = py ''Written by '' @ a"
    by (auto simp add: author_of_substack_extract format_author_def truthy_def)
next
  assume "substack_author soup = None"
  then show "author (substack_extract e u soup) = py ''Unknown Author''"
    by (simp add: author_of_substack_extract format_author_def truthy_def)
next
  show "format_author (Some (py ''Jane'')) (Some (py ''Jane'')) = py ''Written by Jane''"
    by (simp add: format_author_def truthy_def py_def)
qed

lemma byline_author:
  "substack_author (byline_page ''Jane'' p) = Some (py ''Jane'')"
  "substack_author (byline_page '''' p) = None"
  by (simp_all add: byline_page_def ev ev_fetch)

lemma byline_publication:
  "substack_publication (byline_page w ''The Weekly'') = Some (py ''The Weekly'')"
  "substack_publication (byline_page w ''Jane'') = Some (py ''Jane'')"
  "substack_publication (byline_page w '''') = Some []"
  by (simp_all add: byline_page_def ev ev_fetch)

text \<open>The four cases on pages with a masthead and a profile link.\<close>

theorem author_display_string_witness:
  "substack_author (byline_page ''Jane'' ''The Weekly'') = Some (py ''Jane'')
   \<and> substack_publication (byline_page ''Jane'' ''The Weekly'') = Some (py ''The Weekly'')
   \<and> py ''The Weekly'' \<noteq> [] \<and> py ''Jane'' \<noteq> py ''The Weekly''
   \<and> author (substack_extract chain_env post_url (byline_page ''Jane'' ''The Weekly''))
       = py ''Written by Jane from The Weekly''
   \<and> substack_author (byline_page ''Jane'' ''Jane'') = Some (py ''Jane'')
   \<and> substack_publication (byline_page ''Jane'' ''Jane'') = Some (py ''Jane'')
   \<and> author (substack_extract chain_env post_url (byline_page ''Jane'' ''Jane''))
       = py ''Written by Jane''
   \<and> \<not> truthy (substack_publication (byline_page ''Jane'' ''''))
   \<and> author (substack_extract chain_env post_url (byline_page ''Jane'' ''''))
       = py ''Written by Jane''
   \<and> substack_author (byline_page '''' ''The Weekly'') = None
   \<and> author (substack_extract chain_env post_url (byline_page '''' ''The Weekly''))
       = py ''Unknown Author''"
proof -
  have n: "py ''The Weekly'' \<noteq> [] \<and> py ''Jane'' \<noteq> py ''The Weekly''"
    by (simp add: py_def)
  have t: "\<not> truthy (substack_publication (byline_page ''Jane'' ''''))"
    by (simp add: byline_publication truthy_def)
  from author_display_string [of "byline_page ''Jane'' ''The Weekly''" "py ''Jane''"
      "py ''The Weekly''" chain_env post_url] byline_author byline_publication n
  have 1: "author (substack_extract chain_env post_url (byline_page ''Jane'' ''The Weekly''))
       = py ''Written by Jane from The Weekly''"
    by (simp add: py_def)
  from author_display_string [of "byline_page ''Jane'' ''Jane''" "py ''Jane''"
      "py ''Jane''" chain_env post_url] byline_author byline_publication
  have 2: "author (substack_extract chain_env post_url (byline_page ''Jane'' ''Jane''))
       = py ''Written by Jane''"
    by (simp add: py_def)
  from author_display_string [of "byline_page ''Jane'' ''''" "py ''Jane''"
      "py ''Jane''" chain_env post_url] byline_author t
  have 3: "author (substack_extract chain_env post_url (byline_page ''Jane'' ''''))
       = py ''Written by Jane''"
    by (simp add: py_def)
  from author_display_string [of "byline_page '''' ''The Weekly''" "py ''Jane''"
      "py ''Jane''" chain_env post_url] byline_author
  have 4: "author (substack_extract chain_env post_url (byline_page '''' ''The Weekly''))
       = py ''Unknown Author''"
    by simp
  from 1 2 3 4 n t byline_author byline_publication show ?thesis by simp
qed


section \<open>Title and author are never empty\<close>

lemma substack_extract_nonempty:
  "title (substack_extract e u soup) \<noteq> [] \<and> author (substack_extract e u soup) \<noteq> []"
  by (simp add: substack_extract_def Let_def or_default_nonempty py_nonempty)

lemma general_extract_nonempty:
  "title (general_extract e u soup) \<noteq> [] \<and> author (general_extract e u soup) \<noteq> []"
  by (simp add: general_extract_def Let_def or_default_nonempty py_nonempty)

lemma or_default_falsy: "\<not> truthy x \<Longrightarrow> or_default x d = d"
  by (simp add: truthy_def or_default_def split: option.splits)

lemma fetch_article_nonempty:
  assumes "fetch_article e u = (Inr a, requested)"
  shows "title a \<noteq> [] \<and> author a \<noteq> []"
proof (cases "is_substack_url u")
  case True
  with assms have "fetch_substack_article_from e (stack_depth e) u = (Inr a, requested)"
    by (simp add: fetch_article_def fetch_substack_article_def)
  from fetch_substack_article_from_result [OF this]
  obtain v where "final_page e v (Inr a)" by auto
  then obtain soup where "a = substack_extract e v soup"
    by (auto simp add: final_page_def split: option.splits)
  then show ?thesis by (simp add: substack_extract_nonempty)
next
  case False
  with assms have "\<exists>soup. a = general_extract e u soup"
    by (auto simp add: fetch_article_def fetch_general_article_def split: option.splits)
  then show ?thesis by (auto simp add: general_extract_nonempty)
qed

text \<open>
  C4: an article that \<open>fetch_article\<close> returns, on either path, has a non-empty title
  and a non-empty author; where the title or the author found is \<open>None\<close> or empty, the
  record holds \<open>Untitled\<close> or \<open>Unknown Author\<close>.
\<close>

theorem title_and_author_nonempty:
  "(fetch_article e u = (Inr a, requested) \<longrightarrow> title a \<noteq> [] \<and> author a \<noteq> [])
   \<and> (\<not> truthy (substack_title soup) \<longrightarrow>
        title (substack_extract e u soup) = py ''Untitled'')
   \<and> (\<not> truthy (substack_author soup) \<longrightarrow>
        author (substack_extract e u soup) = py ''Unknown Author'')
   \<and> (\<not> truthy (general_title soup) \<longrightarrow>
        title (general_extract e u soup) = py ''Untitled'')
   \<and> (\<not> truthy (general_author soup) \<longrightarrow>
        author (general_extract e u soup) = py ''Unknown Author'')"
proof (intro conjI impI)
  assume "fetch_article e u = (Inr a, requested)"
  from fetch_article_nonempty [OF this] show "title a \<noteq> []" by simp
next
  assume "fetch_article e u = (Inr a, requested)"
  from fetch_article_nonempty [OF this] show "author a \<noteq> []" by simp
next
  assume "\<not> truthy (substack_title soup)"
  then show "title (substack_extract e u soup) = py ''Untitled''"
    by (simp add: substack_extract_def Let_def or_default_falsy)
next
  assume "\<not> truthy (substack_author soup)"
  then show "author (substack_extract e u soup) = py ''Unknown Author''"
    by (simp add: author_of_substack_extract format_author_def)
next
  assume "\<not> truthy (general_title soup)"
  then show "title (general_extract e u soup) = py ''Untitled''"
    by (simp add: general_extract_def Let_def or_default_falsy)
next
  assume "\<not> truthy (general_author soup)"
  then show "author (general_extract e u soup) = py ''Unknown Author''"
    by (simp add: general_extract_def Let_def or_default_falsy)
qed

lemma empty_page_resolves_nothing:
  "\<not> truthy (substack_title (document [])) \<and> \<not> truthy (substack_author (document []))
   \<and> \<not> truthy (general_title (document [])) \<and> \<not> truthy (general_author (document []))"
  by (simp add: ev ev_fetch)

lemma fetch_article_post_url:
  "fetch_article chain_env post_url
     = (Inr (substack_extract chain_env post_url (document [])), [post_url])"
proof -
  have "is_substack_url post_url" by (simp add: is_substack_url_def post_url_def py_def)
  then show ?thesis
    using fetch_substack_article_from_final [OF _ chain_final, of 985]
    by (simp add: fetch_article_def fetch_substack_article_def chain_depth)
qed

text \<open>The page with nothing in it, fetched on the Substack path.\<close>

theorem title_and_author_nonempty_witness:
  "fetch_article chain_env post_url
     = (Inr (substack_extract chain_env post_url (document [])), [post_url])
   \<and> \<not> truthy (substack_title (document [])) \<and> \<not> truthy (substack_author (document []))
   \<and> \<not> truthy (general_title (document [])) \<and> \<not> truthy (general_author (document []))
   \<and> title (substack_extract chain_env post_url (document [])) = py ''Untitled''
   \<and> author (substack_extract chain_env post_url (document [])) = py ''Unknown Author''
   \<and> title (general_extract chain_env post_url (document [])) = py ''Untitled''
   \<and> author (general_extract chain_env post_url (document [])) = py ''Unknown Author''
   \<and> py ''Untitled'' \<noteq> [] \<and> py ''Unknown Author'' \<noteq> []"
  using title_and_author_nonempty [of chain_env post_url
      "substack_extract chain_env post_url (document [])" "[post_url]" "document []"]
    fetch_article_post_url empty_page_resolves_nothing
  by (simp add: py_def)

section \<open>The loops of the classifier\<close>

lemma fold_append: "fold (\<lambda>x acc. acc @ g x) xs acc0 = acc0 @ concat (map g xs)"
  by (induction xs arbitrary: acc0) simp_all





lemma tag_names:
  "py ''ol'' \<noteq> py ''p''" "py ''ol'' \<noteq> py ''h1''" "py ''ol'' \<noteq> py ''h2''"
  "py ''ol'' \<noteq> py ''h3''" "py ''ol'' \<noteq> py ''blockquote''" "py ''ol'' \<noteq> py ''ul''"
  "py ''ul'' \<noteq> py ''p''" "py ''ul'' \<noteq> py ''h1''" "py ''ul'' \<noteq> py ''h2''"
  "py ''ul'' \<noteq> py ''h3''" "py ''ul'' \<noteq> py ''blockquote''"
  "py ''div'' \<noteq> py ''p''" "py ''div'' \<noteq> py ''h1''" "py ''div'' \<noteq> py ''h2''"
  "py ''div'' \<noteq> py ''h3''" "py ''div'' \<noteq> py ''blockquote''" "py ''div'' \<noteq> py ''ul''"
  "py ''div'' \<noteq> py ''ol''"
  by (simp_all add: py_def)



lemma process_element_div:
  "process_element (Element (py ''div'') attrs kids) = concat (map process_element kids)"
  by (simp add: fold_append tag_names)

lemma process_element_other:
  "nm \<notin> set recognised \<Longrightarrow> process_element (Element nm attrs kids) = []"
  by (simp add: recognised_def)


section \<open>Stripped text\<close>

lemma strip_empty_iff: "strip s = [] \<longleftrightarrow> list_all isspace s"
proof
  assume "strip s = []"
  then have "\<forall>c \<in> set (dropWhile isspace s). isspace c"
    by (simp add: strip_def)
  then have "dropWhile isspace s = []"
    using hd_dropWhile [of isspace s] hd_in_set [of "dropWhile isspace s"] by blast
  then show "list_all isspace s"
    by (simp add: list_all_iff)
next
  assume "list_all isspace s"
  then have "dropWhile isspace s = []"
    by (auto simp add: list_all_iff dest: set_dropWhileD)
  then show "strip s = []"
    by (simp add: strip_def del: dropWhile_eq_Nil_conv)
qed

lemma strip_ink: "strip s \<noteq> [] \<Longrightarrow> \<not> list_all isspace (strip s)"
proof -
  assume "strip s \<noteq> []"
  then have d: "dropWhile isspace (rev (dropWhile isspace s)) \<noteq> []"
    by (simp add: strip_def)
  from hd_dropWhile [OF d] hd_in_set [OF d]
  have "\<exists>c \<in> set (strip s). \<not> isspace c"
    by (auto simp add: strip_def)
  then show ?thesis by (simp add: list_all_iff)
qed

lemma get_text_strip_ink:
  assumes "get_text_strip n \<noteq> []"
  shows "\<not> list_all isspace (get_text_strip n)"
proof -
  from assms obtain p where p: "p \<in> set (map strip (all_strings n))" "p \<noteq> []"
    by (auto simp add: get_text_strip_def)
  then obtain t where "p = strip t" by auto
  with p(2) have "\<not> list_all isspace p" by (simp add: strip_ink)
  then obtain c where "c \<in> set p" "\<not> isspace c" by (auto simp add: list_all_iff)
  with p have "c \<in> set (get_text_strip n)"
    by (auto simp add: get_text_strip_def)
  with \<open>\<not> isspace c\<close> show ?thesis by (auto simp add: list_all_iff)
qed

lemma has_text_Paragraph:
  "\<not> list_all isspace t \<Longrightarrow> set t \<subseteq> set s \<Longrightarrow> has_text (Paragraph s st)"
  by (auto simp add: has_text_def strip_empty_iff list_all_iff)

lemma emit_has_text: "list_all has_text (emit elem st)"
  by (simp add: emit_def Let_def get_text_strip_ink has_text_Paragraph [of "get_text_strip elem"])

lemma list_item_has_text:
  "list_all has_text result \<Longrightarrow> list_all has_text (list_item nm li result)"
  by (auto simp add: list_item_def Let_def get_text_strip_ink
      intro!: has_text_Paragraph [of "get_text_strip li"])

lemma fold_list_item_has_text:
  "list_all has_text result \<Longrightarrow> list_all has_text (fold (list_item nm) lis result)"
  by (induction lis arbitrary: result) (simp_all add: list_item_has_text)

lemma process_element_has_text: "list_all has_text (process_element n)"
proof (induction n rule: process_element.induct)
  case (1 nm attrs kids)
  have "list_all has_text (concat (map process_element kids))"
    if "nm = py ''div''"
    using 1 that by (simp add: list_all_iff tag_names)
  then show ?case
    by (simp add: emit_has_text fold_list_item_has_text fold_append)
qed simp_all

lemma flowables_of_soup_has_text: "list_all has_text (flowables_of_soup sd soup)"
  by (simp add: flowables_of_soup_def Let_def fold_append list_all_iff)
     (use process_element_has_text in \<open>auto simp add: list_all_iff\<close>)


section \<open>The References section\<close>

lemma markup_env_parse:
  "parse (markup_env sd) references_markup = references_soup"
  "parse (markup_env sd) quote_markup = quote_soup"
  "parse (markup_env sd) empty_markup = empty_soup"
  "parse (markup_env sd) div_markup = div_soup"
  "parse (markup_env sd) lists_markup = lists_soup"
  "str_decompose (markup_env sd) = sd"
  by (simp_all add: markup_env_def references_markup_def quote_markup_def empty_markup_def
      div_markup_def lists_markup_def py_def)

lemma delete_until_heading_eq:
  "list_all node_truthy ns \<Longrightarrow>
   delete_until_heading sd ns =
     filter (\<lambda>c. \<not> has_decompose sd c) (takeWhile (\<lambda>c. \<not> named headings c) ns)
     @ dropWhile (\<lambda>c. \<not> named headings c) ns"
  by (induction ns) simp_all

lemma list_ex_concat_map:
  "list_ex p (concat (map f xs)) = list_ex (\<lambda>x. list_ex p (f x)) xs"
  by (induction xs) simp_all

lemma remove_references_None:
  "(remove_references_node sd n = None) = (\<not> list_ex is_references (descendants n))"
  "(remove_references_list sd ns = None) = (\<not> list_ex contains_references ns)"
proof (induction sd n and sd ns rule: remove_references_node_remove_references_list.induct)
  case (1 sd nm attrs kids)
  then show ?case
    by (simp add: list_ex_concat_map contains_references_def)
next
  case (5 sd n ns)
  then show ?case
    by (auto simp add: contains_references_def split: option.splits)
qed simp_all

lemma remove_references_list_at:
  assumes "\<not> list_ex contains_references before" and "is_references h"
  shows "remove_references_list sd (before @ h # after) = Some (before @ delete_until_heading sd after)"
  using assms(1)
proof (induction before)
  case Nil
  with assms(2) show ?case by simp
next
  case (Cons n before)
  then have "\<not> is_references n" and "remove_references_node sd n = None"
    by (simp_all add: remove_references_None contains_references_def)
  with Cons show ?case by simp
qed

lemma remove_references_list_below:
  assumes "\<not> list_ex contains_references before" and "\<not> is_references n"
    and "contains_references n"
  shows "remove_references_list sd (before @ n # after) =
     map_option (\<lambda>n'. before @ n' # after) (remove_references_node sd n)"
  using assms(1)
proof (induction before)
  case Nil
  from assms(2,3) have "remove_references_node sd n \<noteq> None"
    by (simp add: remove_references_None contains_references_def)
  with assms(2) show ?case by (auto split: option.splits)
next
  case (Cons m before)
  then have "\<not> is_references m" and "remove_references_node sd m = None"
    by (simp_all add: remove_references_None contains_references_def)
  with Cons show ?case by (simp add: option.map_comp comp_def)
qed

text \<open>
  C3: the code at an input where it does not do what the claim, and its own comment at
  line 129 (delete everything between this heading and the next), say.  With a library
  that gives string nodes no \<open>decompose\<close> method the test \<open>hasattr(current,
  'decompose')\<close> of line 135 skips the text after the References heading: it stays in the
  tree and reaches the paragraph of the quote.  With a library that gives strings the
  method the same input loses that text, as the claim says.
\<close>

theorem references_text_sibling_kept:
  "html_to_flowables (markup_env False) quote_markup = [Paragraph (py ''Introcite 1'') Quote]
   \<and> preprocess (str_decompose (markup_env False)) (parse (markup_env False) quote_markup)
       = document [tag ''blockquote'' [tx ''Intro'', tx ''cite 1'']]
   \<and> html_to_flowables (markup_env True) quote_markup = [Paragraph (py ''Intro'') Quote]
   \<and> preprocess (str_decompose (markup_env True)) (parse (markup_env True) quote_markup)
       = document [tag ''blockquote'' [tx ''Intro'']]"
proof -
  have "html_to_flowables (markup_env sd) quote_markup = flowables_of_soup sd quote_soup" for sd
    by (simp add: html_to_flowables_def markup_env_parse)
  moreover have "flowables_of_soup False quote_soup = [Paragraph (py ''Introcite 1'') Quote]"
    by (simp add: quote_soup_def ev)
  moreover have "preprocess False quote_soup
      = document [tag ''blockquote'' [tx ''Intro'', tx ''cite 1'']]"
    by (simp add: quote_soup_def ev)
  moreover have "flowables_of_soup True quote_soup = [Paragraph (py ''Intro'') Quote]"
    by (simp add: quote_soup_def ev)
  moreover have "preprocess True quote_soup = document [tag ''blockquote'' [tx ''Intro'']]"
    by (simp add: quote_soup_def ev)
  ultimately show ?thesis by (simp add: markup_env_parse)
qed

text \<open>
  The removal in general.  The first heading of level 1 to 3, in document order, whose
  stripped text is \<open>references\<close> in any letter case is deleted, and with it each sibling
  after it, up to the next heading of level 1 to 3 or the end of the sibling list, that
  has a \<open>decompose\<close> method: every tag, and every string where the library gives
  strings the method, so that then all those siblings go.  Nothing else changes, so a
  later section of that name stays; with no such heading the tree is unchanged.  The
  markup \<open><h2>References</h2><p>cite 1</p><h2>Next</h2><p>kept</p>\<close> classifies to the
  heading Next and the paragraph kept.  (Siblings are the non-empty nodes a parser
  builds.)
\<close>

lemma references_section_removed:
  "(\<not> contains_references soup \<longrightarrow> remove_references sd soup = soup)
   \<and> (\<not> list_ex contains_references before \<and> is_references h \<and> list_all node_truthy after \<longrightarrow>
        remove_references_list sd (before @ h # after) =
          Some (before
                @ filter (\<lambda>c. \<not> has_decompose sd c) (takeWhile (\<lambda>c. \<not> named headings c) after)
                @ dropWhile (\<lambda>c. \<not> named headings c) after))
   \<and> (\<not> list_ex contains_references before \<and> \<not> is_references n \<and> contains_references n \<longrightarrow>
        remove_references_list sd (before @ n # after) =
          map_option (\<lambda>n'. before @ n' # after) (remove_references_node sd n))
   \<and> remove_references_node sd (Element nm attrs kids) =
        map_option (Element nm attrs) (remove_references_list sd kids)
   \<and> (parse e references_markup = references_soup \<longrightarrow>
        html_to_flowables e references_markup =
          [Paragraph (py ''Next'') ArticleHeading, Paragraph (py ''kept'') ColumnBody])"
proof (intro conjI impI)
  assume "\<not> contains_references soup"
  then have "remove_references_node sd soup = None"
    by (simp add: remove_references_None contains_references_def)
  then show "remove_references sd soup = soup"
    by (simp add: remove_references_def)
next
  assume "\<not> list_ex contains_references before \<and> is_references h \<and> list_all node_truthy after"
  then show "remove_references_list sd (before @ h # after) =
      Some (before
            @ filter (\<lambda>c. \<not> has_decompose sd c) (takeWhile (\<lambda>c. \<not> named headings c) after)
            @ dropWhile (\<lambda>c. \<not> named headings c) after)"
    by (simp add: remove_references_list_at delete_until_heading_eq)
next
  assume "\<not> list_ex contains_references before \<and> \<not> is_references n \<and> contains_references n"
  then show "remove_references_list sd (before @ n # after) =
      map_option (\<lambda>n'. before @ n' # after) (remove_references_node sd n)"
    by (simp add: remove_references_list_below)
next
  show "remove_references_node sd (Element nm attrs kids) =
      map_option (Element nm attrs) (remove_references_list sd kids)"
    by simp
next
  assume "parse e references_markup = references_soup"
  then show "html_to_flowables e references_markup =
      [Paragraph (py ''Next'') ArticleHeading, Paragraph (py ''kept'') ColumnBody]"
    by (simp add: html_to_flowables_def) (simp add: references_soup_def ev)
qed

lemma references_witness_facts:
  "\<not> contains_references (document [])"
  "\<not> list_ex contains_references []"
  "is_references (tag ''h2'' [tx ''References''])"
  "list_all node_truthy [tag ''p'' [tx ''cite 1''], tag ''h2'' [tx ''Next''], tag ''p'' [tx ''kept'']]"
  "\<not> is_references (tag ''div'' [tag ''h2'' [tx ''References'']])"
  "contains_references (tag ''div'' [tag ''h2'' [tx ''References'']])"
  by (simp_all add: contains_references_def ev)

text \<open>The parts of the statement on the nodes of the example.\<close>

lemma references_section_removed_example:
  "\<not> contains_references (document []) \<and> remove_references True (document []) = document []
   \<and> \<not> list_ex contains_references [] \<and> is_references (tag ''h2'' [tx ''References''])
   \<and> list_all node_truthy [tag ''p'' [tx ''cite 1''], tag ''h2'' [tx ''Next''], tag ''p'' [tx ''kept'']]
   \<and> remove_references_list True
        ([] @ tag ''h2'' [tx ''References'']
           # [tag ''p'' [tx ''cite 1''], tag ''h2'' [tx ''Next''], tag ''p'' [tx ''kept'']])
       = Some [tag ''h2'' [tx ''Next''], tag ''p'' [tx ''kept'']]
   \<and> \<not> is_references (tag ''div'' [tag ''h2'' [tx ''References'']])
   \<and> contains_references (tag ''div'' [tag ''h2'' [tx ''References'']])
   \<and> remove_references_list True
        ([] @ tag ''div'' [tag ''h2'' [tx ''References'']]
           # [tag ''p'' [tx ''cite 1''], tag ''h2'' [tx ''Next''], tag ''p'' [tx ''kept'']])
       = Some [tag ''div'' [], tag ''p'' [tx ''cite 1''], tag ''h2'' [tx ''Next''],
               tag ''p'' [tx ''kept'']]
   \<and> parse (markup_env True) references_markup = references_soup
   \<and> html_to_flowables (markup_env True) references_markup =
        [Paragraph (py ''Next'') ArticleHeading, Paragraph (py ''kept'') ColumnBody]"
proof -
  note t = references_section_removed
    [of "document []" True "[]" "tag ''h2'' [tx ''References'']"
      "[tag ''p'' [tx ''cite 1''], tag ''h2'' [tx ''Next''], tag ''p'' [tx ''kept'']]"
      "tag ''div'' [tag ''h2'' [tx ''References'']]" "py ''div''" "[]" "[]" "markup_env True"]
  from t references_witness_facts have 1: "remove_references True (document []) = document []"
    by blast
  from t references_witness_facts have "remove_references_list True
        ([] @ tag ''h2'' [tx ''References'']
           # [tag ''p'' [tx ''cite 1''], tag ''h2'' [tx ''Next''], tag ''p'' [tx ''kept'']])
       = Some ([] @ filter (\<lambda>c. \<not> has_decompose True c) (takeWhile (\<lambda>c. \<not> named headings c)
           [tag ''p'' [tx ''cite 1''], tag ''h2'' [tx ''Next''], tag ''p'' [tx ''kept'']])
          @ dropWhile (\<lambda>c. \<not> named headings c)
           [tag ''p'' [tx ''cite 1''], tag ''h2'' [tx ''Next''], tag ''p'' [tx ''kept'']])"
    by blast
  then have 2: "remove_references_list True
        ([] @ tag ''h2'' [tx ''References'']
           # [tag ''p'' [tx ''cite 1''], tag ''h2'' [tx ''Next''], tag ''p'' [tx ''kept'']])
       = Some [tag ''h2'' [tx ''Next''], tag ''p'' [tx ''kept'']]"
    by (simp add: ev)
  from t references_witness_facts
  have "remove_references_list True
        ([] @ tag ''div'' [tag ''h2'' [tx ''References'']]
           # [tag ''p'' [tx ''cite 1''], tag ''h2'' [tx ''Next''], tag ''p'' [tx ''kept'']])
       = map_option (\<lambda>n'. [] @ n'
           # [tag ''p'' [tx ''cite 1''], tag ''h2'' [tx ''Next''], tag ''p'' [tx ''kept'']])
           (remove_references_node True (tag ''div'' [tag ''h2'' [tx ''References'']]))"
    by blast
  then have 3: "remove_references_list True
        ([] @ tag ''div'' [tag ''h2'' [tx ''References'']]
           # [tag ''p'' [tx ''cite 1''], tag ''h2'' [tx ''Next''], tag ''p'' [tx ''kept'']])
       = Some [tag ''div'' [], tag ''p'' [tx ''cite 1''], tag ''h2'' [tx ''Next''],
               tag ''p'' [tx ''kept'']]"
    by (simp add: ev)
  from t markup_env_parse have 4: "html_to_flowables (markup_env True) references_markup =
        [Paragraph (py ''Next'') ArticleHeading, Paragraph (py ''kept'') ColumnBody]"
    by blast
  from 1 2 3 4 references_witness_facts markup_env_parse show ?thesis by blast
qed

section \<open>The batch\<close>

lemma fetch_articles_eq:
  "fetch_articles e urls articles = articles @ successes e urls"
proof (induction urls arbitrary: articles)
  case Nil
  show ?case by (simp add: successes_def)
next
  case (Cons u urls)
  obtain res requested where r: "fetch_article e u = (res, requested)"
    by (cases "fetch_article e u") auto
  show ?case
    using r by (cases res) (simp_all add: Cons successes_def)
qed







lemma batch_fetches:
  "fetch_article batch_env url_a = (Inr article_a, [url_a])"
  "fetch_article batch_env url_b = (Inl RequestFailed, [url_b])"
  "fetch_article batch_env url_c = (Inr article_c, [url_c])"
  by (simp_all add: ev_batch ev ev_fetch)









text \<open>
  C9: when the fetch of every URL of the batch fails, no article is kept, no document is
  built, and \<open>main\<close> ends with \<open>sys.exit(1)\<close>.
\<close>

theorem empty_batch_exits:
  "(\<forall>u \<in> set urls. \<exists>err requested. fetch_article e u = (Inl err, requested)) \<longrightarrow>
     fetch_articles e urls [] = [] \<and> main e urls = SystemExit 1"
proof
  assume h: "\<forall>u \<in> set urls. \<exists>err requested. fetch_article e u = (Inl err, requested)"
  then have "successes e urls = []"
    by (induction urls) (auto simp add: successes_def)
  then show "fetch_articles e urls [] = [] \<and> main e urls = SystemExit 1"
    using fetch_articles_eq [of e urls "[]"] by (simp add: main_def Let_def)
qed

text \<open>The batch of a failing URL, twice.\<close>

theorem empty_batch_exits_witness:
  "fetch_article batch_env url_b = (Inl RequestFailed, [url_b])
   \<and> fetch_articles batch_env [url_b, url_b] [] = []
   \<and> main batch_env [url_b, url_b] = SystemExit 1"
  using empty_batch_exits [of "[url_b, url_b]" batch_env]
  by (simp add: batch_fetches)

section \<open>The blocks of the classifier\<close>

lemma html_to_flowables_walk:
  "html_to_flowables e html =
     concat (map process_element
       (children (content_root (preprocess (str_decompose e) (parse e html)))))"
  by (simp add: html_to_flowables_def flowables_of_soup_def Let_def fold_append)

lemma html_to_flowables_has_text: "list_all has_text (html_to_flowables e html)"
  by (simp add: html_to_flowables_def flowables_of_soup_has_text)

text \<open>
  C5: every flowable that the classifier emits is a paragraph whose text is not empty,
  and not empty when stripped; a \<open>p\<close>, \<open>h1\<close>, \<open>h2\<close>, \<open>h3\<close> or \<open>blockquote\<close> whose
  stripped text is empty gives no flowable, and neither does such a list item.  The markup
  \<open><p></p><p>   </p><p>Real text</p>\<close> gives the one paragraph \<open>Real text\<close>.
\<close>

theorem no_empty_blocks:
  "(\<forall>f \<in> set (html_to_flowables e html). \<exists>t st. f = Paragraph t st \<and> t \<noteq> [] \<and> strip t \<noteq> [])
   \<and> (nm \<in> set [py ''p'', py ''h1'', py ''h2'', py ''h3'', py ''blockquote'']
        \<and> get_text_strip (Element nm attrs kids) = [] \<longrightarrow>
      process_element (Element nm attrs kids) = [])
   \<and> (get_text_strip li = [] \<longrightarrow> list_item nm li result = result)
   \<and> (parse e empty_markup = empty_soup \<longrightarrow>
      html_to_flowables e empty_markup = [Paragraph (py ''Real text'') ColumnBody])"
proof (intro conjI impI ballI)
  fix f assume "f \<in> set (html_to_flowables e html)"
  with html_to_flowables_has_text [of e html] have "has_text f"
    by (simp add: list_all_iff)
  then show "\<exists>t st. f = Paragraph t st \<and> t \<noteq> [] \<and> strip t \<noteq> []"
    by (cases f) (simp_all add: has_text_def)
next
  assume h: "nm \<in> set [py ''p'', py ''h1'', py ''h2'', py ''h3'', py ''blockquote'']
     \<and> get_text_strip (Element nm attrs kids) = []"
  then have e: "emit (Element nm attrs kids) st = []" for st
    by (simp add: emit_def)
  from h have "nm = py ''p'' \<or> nm = py ''h1'' \<or> nm = py ''h2'' \<or> nm = py ''h3''
      \<or> nm = py ''blockquote''"
    by simp
  then show "process_element (Element nm attrs kids) = []"
  proof (elim disjE)
    assume "nm = py ''p''"
    with e show ?thesis by (simp add: py_def)
  next
    assume "nm = py ''h1''"
    with e show ?thesis by (simp add: py_def)
  next
    assume "nm = py ''h2''"
    with e show ?thesis by (simp add: py_def)
  next
    assume "nm = py ''h3''"
    with e show ?thesis by (simp add: py_def)
  next
    assume "nm = py ''blockquote''"
    with e show ?thesis by (simp add: py_def)
  qed
next
  assume "get_text_strip li = []"
  then show "list_item nm li result = result"
    by (simp add: list_item_def)
next
  assume "parse e empty_markup = empty_soup"
  then show "html_to_flowables e empty_markup = [Paragraph (py ''Real text'') ColumnBody]"
    by (simp add: html_to_flowables_def) (simp add: empty_soup_def ev)
qed

text \<open>The statement on the example and on an empty paragraph and list item.\<close>

theorem no_empty_blocks_witness:
  "html_to_flowables (markup_env True) empty_markup = [Paragraph (py ''Real text'') ColumnBody]
   \<and> strip (py ''Real text'') \<noteq> []
   \<and> get_text_strip (Element (py ''p'') [] [tx ''   '']) = []
   \<and> process_element (Element (py ''p'') [] [tx ''   '']) = []
   \<and> get_text_strip (tag ''li'' []) = []
   \<and> list_item (py ''p'') (tag ''li'' []) [] = []
   \<and> parse (markup_env True) empty_markup = empty_soup"
proof -
  note t = no_empty_blocks [of "markup_env True" empty_markup "py ''p''" "[]" "[tx ''   '']"
      "tag ''li'' []" "[]"]
  have g: "get_text_strip (Element (py ''p'') [] [tx ''   '']) = []"
    "get_text_strip (tag ''li'' []) = []"
    by (simp_all add: ev)
  have m: "py ''p'' \<in> set [py ''p'', py ''h1'', py ''h2'', py ''h3'', py ''blockquote'']"
    by simp
  from t markup_env_parse have 1:
    "html_to_flowables (markup_env True) empty_markup = [Paragraph (py ''Real text'') ColumnBody]"
    by blast
  with t have 2: "strip (py ''Real text'') \<noteq> []" by auto
  from t g m have 3: "process_element (Element (py ''p'') [] [tx ''   '']) = []" by blast
  from t g have 4: "list_item (py ''p'') (tag ''li'' []) [] = []" by blast
  from 1 2 3 4 g markup_env_parse show ?thesis by blast
qed



text \<open>
  C7: the classifier walks the children of the first \<open>body\<close> tag of the preprocessed
  tree, or of the root when there is none, in order, and appends what each gives; a
  \<open>div\<close> gives what its children give, in order, and nothing of its own; a tag with
  a name not known to \<open>process_element\<close> gives nothing, its children are not looked at.
  The markup \<open><div><p>A</p><div><p>B</p></div></div>\<close> gives the paragraphs A and B.
\<close>

theorem div_flattened:
  "html_to_flowables e html =
     concat (map process_element
       (children (content_root (preprocess (str_decompose e) (parse e html)))))
   \<and> (soup_find (named [py ''body'']) soup = None \<longrightarrow> content_root soup = soup)
   \<and> (soup_find (named [py ''body'']) soup = Some b \<longrightarrow> content_root soup = b)
   \<and> process_element (Element (py ''div'') attrs kids) = concat (map process_element kids)
   \<and> (nm \<notin> set recognised \<longrightarrow> process_element (Element nm attrs kids) = [])
   \<and> (parse e div_markup = div_soup \<longrightarrow>
      html_to_flowables e div_markup =
        [Paragraph (py ''A'') ColumnBody, Paragraph (py ''B'') ColumnBody])"
proof (intro conjI impI)
  show "html_to_flowables e html =
     concat (map process_element
       (children (content_root (preprocess (str_decompose e) (parse e html)))))"
    by (rule html_to_flowables_walk)
next
  assume "soup_find (named [py ''body'']) soup = None"
  then show "content_root soup = soup" by (simp add: content_root_def)
next
  assume "soup_find (named [py ''body'']) soup = Some b"
  then show "content_root soup = b" by (simp add: content_root_def)
next
  show "process_element (Element (py ''div'') attrs kids) = concat (map process_element kids)"
    by (rule process_element_div)
next
  assume "nm \<notin> set recognised"
  then show "process_element (Element nm attrs kids) = []"
    by (rule process_element_other)
next
  assume "parse e div_markup = div_soup"
  then show "html_to_flowables e div_markup =
      [Paragraph (py ''A'') ColumnBody, Paragraph (py ''B'') ColumnBody]"
    by (simp add: html_to_flowables_def) (simp add: div_soup_def ev)
qed

lemma div_witness_facts:
  "soup_find (named [py ''body'']) div_soup = None"
  "soup_find (named [py ''body'']) (document [tag ''html'' [tag ''body'' [tag ''p'' [tx ''A'']]]])
     = Some (tag ''body'' [tag ''p'' [tx ''A'']])"
  "py ''span'' \<notin> set recognised"
  by (simp_all add: div_soup_def recognised_def ev)

text \<open>A tree without and one with a \<open>body\<close>, and a \<open>span\<close> around a paragraph.\<close>

theorem div_flattened_witness:
  "soup_find (named [py ''body'']) div_soup = None \<and> content_root div_soup = div_soup
   \<and> soup_find (named [py ''body'']) (document [tag ''html'' [tag ''body'' [tag ''p'' [tx ''A'']]]])
       = Some (tag ''body'' [tag ''p'' [tx ''A'']])
   \<and> content_root (document [tag ''html'' [tag ''body'' [tag ''p'' [tx ''A'']]]])
       = tag ''body'' [tag ''p'' [tx ''A'']]
   \<and> py ''span'' \<notin> set recognised
   \<and> process_element (Element (py ''span'') [] [tag ''p'' [tx ''A'']]) = []
   \<and> parse (markup_env True) div_markup = div_soup
   \<and> html_to_flowables (markup_env True) div_markup =
        [Paragraph (py ''A'') ColumnBody, Paragraph (py ''B'') ColumnBody]"
proof -
  from div_flattened [of "markup_env True" div_markup div_soup _ "[]" "[tag ''p'' [tx ''A'']]"
      "py ''span''"] div_witness_facts markup_env_parse
  have 1: "content_root div_soup = div_soup"
    and 2: "process_element (Element (py ''span'') [] [tag ''p'' [tx ''A'']]) = []"
    and 3: "html_to_flowables (markup_env True) div_markup =
        [Paragraph (py ''A'') ColumnBody, Paragraph (py ''B'') ColumnBody]"
    by blast+
  from div_flattened [of "markup_env True" div_markup
      "document [tag ''html'' [tag ''body'' [tag ''p'' [tx ''A'']]]]"
      "tag ''body'' [tag ''p'' [tx ''A'']]" "[]" "[]" "py ''span''"] div_witness_facts
  have 4: "content_root (document [tag ''html'' [tag ''body'' [tag ''p'' [tx ''A'']]]])
       = tag ''body'' [tag ''p'' [tx ''A'']]"
    by blast
  from 1 2 3 4 div_witness_facts markup_env_parse show ?thesis by blast
qed


end
